theory Spec2Isabelle
  imports Complex_Main
begin

section \<open>Failures\<close>

text \<open>
  Every way a step of the program can raise is a value of \<open>py_error\<close>; a fallible
  computation returns \<open>py_error + 'a\<close>, with \<open>Inl\<close> for the exception.
  \<open>IndexError\<close> is Python's for \<^verbatim>\<open>xs[-1]\<close> on an empty list, \<open>AttributeError\<close> for
  reading an attribute an object does not have, \<open>ZeroDivisionError\<close> and
  \<open>OverflowError\<close> are those of integer true division. \<open>UnknownTool\<close> and
  \<open>ValidationError\<close> are the failures the tool-execution step has for a request that
  names no registered tool or carries arguments of the wrong type, and
  \<open>TransportError\<close> is a failure of the hosted model.
\<close>

datatype py_error =
    ZeroDivisionError
  | OverflowError
  | IndexError
  | AttributeError
  | UnknownTool string
  | ValidationError
  | TransportError

section \<open>The tool set\<close>

text \<open>
  \<^verbatim>\<open>
  @tool
  def add(a: int, b: int) -> int:
      """Adds a and b."""
      return a + b

  @tool
  def multiply(a: int, b: int) -> int:
      """Multiplies a and b."""
      return a + b

  @tool
  def divide(a: int, b: int) -> float:
      """Divide a and b."""
      return a / b
  \<close>
  Python's integers are unbounded, so they are \<open>int\<close>. The body of \<open>multiply\<close> is
  the one of the source, an addition.
\<close>

definition add :: "int \<Rightarrow> int \<Rightarrow> int" where
  "add a b = a + b"

definition multiply :: "int \<Rightarrow> int \<Rightarrow> int" where
  "multiply a b = a + b"

text \<open>
  \<^verbatim>\<open>a / b\<close> on two Python integers is true division: it raises
  \<open>ZeroDivisionError\<close> when \<open>b\<close> is zero, before anything is computed, and otherwise
  converts the exact quotient to a float. The float type \<open>'f\<close> and that conversion
  (the rounding to a double, which raises \<open>OverflowError\<close> for a quotient too large
  for a float) belong to the language and are the parameter \<open>to_float\<close>.
\<close>

definition divide_tool :: "(rat \<Rightarrow> py_error + 'f) \<Rightarrow> int \<Rightarrow> int \<Rightarrow> py_error + 'f" where
  "divide_tool to_float a b =
     (if b = 0 then Inl ZeroDivisionError else to_float (of_int a / of_int b))"

section \<open>Messages and the conversation state\<close>

text \<open>
  The message classes come from the libraries the program imports; their shape is the
  one of the data model: a message is a human message, an assistant message or a tool
  result. Only an assistant message has the attribute \<open>tool_calls\<close>; it holds the
  ordered list of tool-call requests, and \<open>None\<close> stands for a list that is absent.
  A tool result carries the identifier of the request it answers and the returned value.
\<close>

datatype 'f pyvalue = IntV int | FloatV 'f | StrV string

record 'f tool_call =
  tc_id :: string
  tc_name :: string
  tc_args :: "(string \<times> 'f pyvalue) list"

datatype 'f message =
    Human string
  | Assistant "string option" "'f tool_call list option"
  | ToolResult string "'f pyvalue"

text \<open>
  \<^verbatim>\<open>
  class AgentState(TypedDict):
      messages: Annotated[List[BaseMessage], operator.add]
  \<close>
  The state has the one key \<open>messages\<close>. Its annotation names the reducer the graph
  uses to merge a node's return value into the state: \<open>operator.add\<close>, which on lists
  is concatenation, the old list first.
\<close>

record 'f agent_state =
  messages :: "'f message list"

definition reducer :: "'f message list \<Rightarrow> 'f message list \<Rightarrow> 'f message list" where
  "reducer old new = old @ new"

text \<open>
  A node returns a partial state, a dictionary with the key \<open>messages\<close> only; it is
  modelled by the list under that key. The graph merges it into the state with the
  reducer.
\<close>

definition apply_update :: "('f, 'x) agent_state_scheme \<Rightarrow> 'f message list \<Rightarrow> ('f, 'x) agent_state_scheme" where
  "apply_update s upd = s\<lparr>messages := reducer (messages s) upd\<rparr>"

section \<open>The router\<close>

text \<open>
  \<^verbatim>\<open>
  def tools_condition(state: AgentState):
      last_message = state["messages"][-1]
      if last_message.tool_calls:
          return "tools"
      return END
  \<close>
  \<^verbatim>\<open>state["messages"][-1]\<close> raises \<open>IndexError\<close> on an empty list. Reading
  \<open>tool_calls\<close> raises \<open>AttributeError\<close> on a message that has no such attribute.
  The test is Python's truth value: \<open>None\<close> and the empty list are false, a
  non-empty list is true.
\<close>

datatype route = Tools | END

definition last_message :: "'a list \<Rightarrow> py_error + 'a" where
  "last_message ms = (if ms = [] then Inl IndexError else Inr (last ms))"

fun tool_calls :: "'f message \<Rightarrow> py_error + 'f tool_call list option" where
  "tool_calls (Assistant content tcs) = Inr tcs"
| "tool_calls (Human content) = Inl AttributeError"
| "tool_calls (ToolResult cid v) = Inl AttributeError"

fun truthy :: "'a list option \<Rightarrow> bool" where
  "truthy None = False"
| "truthy (Some xs) = (xs \<noteq> [])"

definition tools_condition :: "('f, 'x) agent_state_scheme \<Rightarrow> py_error + route" where
  "tools_condition state =
     (case last_message (messages state) of
        Inl e \<Rightarrow> Inl e
      | Inr m \<Rightarrow>
          (case tool_calls m of
             Inl e \<Rightarrow> Inl e
           | Inr tcs \<Rightarrow> if truthy tcs then Inr Tools else Inr END))"

section \<open>The assistant step\<close>

text \<open>
  \<^verbatim>\<open>
  def assistant_node(state: AgentState):
      response = llm_with_tools.invoke(state["messages"])
      return {"messages": [response]}
  \<close>
  The model client is the parameter \<open>llm_with_tools\<close>: it receives the whole message
  list and answers with one message, or fails. A failure is not caught, so it is the
  step's failure.
\<close>

definition assistant_node ::
  "('f message list \<Rightarrow> py_error + 'f message) \<Rightarrow> ('f, 'x) agent_state_scheme \<Rightarrow>
   py_error + 'f message list" where
  "assistant_node llm_with_tools state =
     (case llm_with_tools (messages state) of
        Inl e \<Rightarrow> Inl e
      | Inr response \<Rightarrow> Inr [response])"

section \<open>The tool-execution step\<close>

text \<open>
  \<^verbatim>\<open>
  tools = [add, multiply, divide]
  tool_node = ToolNode(tools)
  \<close>
  The registry is the source's list; each tool is registered under the name of its
  function.
\<close>

datatype tool = AddTool | MultiplyTool | DivideTool

definition tools :: "(string \<times> tool) list" where
  "tools = [(''add'', AddTool), (''multiply'', MultiplyTool), (''divide'', DivideTool)]"

text \<open>
  Modelled from the spec: the class \<open>ToolNode\<close> of the graph library, which the source
  instantiates and whose code is not part of the repository. Section 4.4 of the
  specification: the step produces one tool-result message per request found on the
  latest assistant message, in the order the requests are listed. For each request it
  looks the tool up by name (failing with \<open>UnknownTool\<close> if absent), validates the
  arguments against the declared parameter types (both parameters \<open>a\<close> and \<open>b\<close> of
  every tool are integers), invokes the tool function and wraps the return value with
  the identifier of the originating request. Any failure is fatal to the step.
\<close>

definition int_arg :: "(string \<times> 'f pyvalue) list \<Rightarrow> string \<Rightarrow> py_error + int" where
  "int_arg args k =
     (case map_of args k of
        Some (IntV i) \<Rightarrow> Inr i
      | _ \<Rightarrow> Inl ValidationError)"

definition invoke_tool ::
  "(rat \<Rightarrow> py_error + 'f) \<Rightarrow> tool \<Rightarrow> (string \<times> 'f pyvalue) list \<Rightarrow> py_error + 'f pyvalue" where
  "invoke_tool to_float t args =
     (case int_arg args ''a'' of
        Inl e \<Rightarrow> Inl e
      | Inr a \<Rightarrow>
          (case int_arg args ''b'' of
             Inl e \<Rightarrow> Inl e
           | Inr b \<Rightarrow>
               (case t of
                  AddTool \<Rightarrow> Inr (IntV (add a b))
                | MultiplyTool \<Rightarrow> Inr (IntV (multiply a b))
                | DivideTool \<Rightarrow>
                    (case divide_tool to_float a b of
                       Inl e \<Rightarrow> Inl e
                     | Inr q \<Rightarrow> Inr (FloatV q)))))"

definition execute_call :: "(rat \<Rightarrow> py_error + 'f) \<Rightarrow> 'f tool_call \<Rightarrow> py_error + 'f message" where
  "execute_call to_float c =
     (case map_of tools (tc_name c) of
        None \<Rightarrow> Inl (UnknownTool (tc_name c))
      | Some t \<Rightarrow>
          (case invoke_tool to_float t (tc_args c) of
             Inl e \<Rightarrow> Inl e
           | Inr v \<Rightarrow> Inr (ToolResult (tc_id c) v)))"

fun execute_calls :: "(rat \<Rightarrow> py_error + 'f) \<Rightarrow> 'f tool_call list \<Rightarrow> py_error + 'f message list" where
  "execute_calls to_float [] = Inr []"
| "execute_calls to_float (c # cs) =
     (case execute_call to_float c of
        Inl e \<Rightarrow> Inl e
      | Inr m \<Rightarrow>
          (case execute_calls to_float cs of
             Inl e \<Rightarrow> Inl e
           | Inr ms \<Rightarrow> Inr (m # ms)))"

definition tool_node ::
  "(rat \<Rightarrow> py_error + 'f) \<Rightarrow> ('f, 'x) agent_state_scheme \<Rightarrow> py_error + 'f message list" where
  "tool_node to_float state =
     (case last_message (messages state) of
        Inl e \<Rightarrow> Inl e
      | Inr m \<Rightarrow>
          (case tool_calls m of
             Inl e \<Rightarrow> Inl e
           | Inr tcs \<Rightarrow> execute_calls to_float (case tcs of None \<Rightarrow> [] | Some cs \<Rightarrow> cs)))"

section \<open>The driver loop\<close>

text \<open>
  \<^verbatim>\<open>
  builder = StateGraph(AgentState)
  builder.add_node("assistant", assistant_node)
  builder.add_node("tools", tool_node)
  builder.add_edge(START, "assistant")
  builder.add_conditional_edges("assistant", tools_condition)
  builder.add_edge("tools", "assistant")
  graph = builder.compile()
  \<close>
  The graph has two nodes. Executing a node runs its function on the state, merges the
  returned partial state into the state with the reducer and follows the node's
  outgoing edge: from \<open>assistant\<close> the edge the router chooses on the merged state
  (\<open>tools\<close>, or \<open>END\<close>, after which no node runs), from \<open>tools\<close> the edge back
  to \<open>assistant\<close>. The source configures no limit on the number of node executions;
  a limit the graph library may itself put on a run is outside the source and is not
  modelled.
  The model client and the tool node are parameters of the loop.

  \<open>step\<close> is one node execution: it returns the node's update, the next node
  (\<open>None\<close> after \<open>END\<close>) and the merged state.
\<close>

datatype node = AssistantNode | ToolsNode

definition step ::
  "('f message list \<Rightarrow> py_error + 'f message) \<Rightarrow>
   (('f, 'x) agent_state_scheme \<Rightarrow> py_error + 'f message list) \<Rightarrow>
   node \<Rightarrow> ('f, 'x) agent_state_scheme \<Rightarrow>
   py_error + ('f message list \<times> node option \<times> ('f, 'x) agent_state_scheme)" where
  "step llm_with_tools tn n state =
     (case n of
        AssistantNode \<Rightarrow>
          (case assistant_node llm_with_tools state of
             Inl e \<Rightarrow> Inl e
           | Inr upd \<Rightarrow>
               (case tools_condition (apply_update state upd) of
                  Inl e \<Rightarrow> Inl e
                | Inr Tools \<Rightarrow> Inr (upd, Some ToolsNode, apply_update state upd)
                | Inr END \<Rightarrow> Inr (upd, None, apply_update state upd)))
      | ToolsNode \<Rightarrow>
          (case tn state of
             Inl e \<Rightarrow> Inl e
           | Inr upd \<Rightarrow> Inr (upd, Some AssistantNode, apply_update state upd)))"

text \<open>
  \<open>drive k\<close> is the loop's first \<open>k\<close> node executions from node \<open>n\<close>: it stops
  early at \<open>END\<close> or at a failure, and returns the updates of the executed steps in
  order, the node to run next (\<open>None\<close> when the loop has reached \<open>END\<close>) and the
  state. That the loop is still running after every number of steps is what it means
  for it to run forever.
\<close>

fun drive ::
  "nat \<Rightarrow> ('f message list \<Rightarrow> py_error + 'f message) \<Rightarrow>
   (('f, 'x) agent_state_scheme \<Rightarrow> py_error + 'f message list) \<Rightarrow>
   node \<Rightarrow> ('f, 'x) agent_state_scheme \<Rightarrow>
   py_error + ('f message list list \<times> node option \<times> ('f, 'x) agent_state_scheme)" where
  "drive 0 llm_with_tools tn n state = Inr ([], Some n, state)"
| "drive (Suc k) llm_with_tools tn n state =
     (case step llm_with_tools tn n state of
        Inl e \<Rightarrow> Inl e
      | Inr (upd, None, state') \<Rightarrow> Inr ([upd], None, state')
      | Inr (upd, Some n', state') \<Rightarrow>
          (case drive k llm_with_tools tn n' state' of
             Inl e \<Rightarrow> Inl e
           | Inr (upds, nxt, state'') \<Rightarrow> Inr (upd # upds, nxt, state'')))"

text \<open>
  \<^verbatim>\<open>graph.stream({"messages": inputs})\<close>: the input is merged into the empty state
  with the reducer, and the loop starts at the node the edge from \<open>START\<close> names.
\<close>

definition graph_stream ::
  "nat \<Rightarrow> ('f message list \<Rightarrow> py_error + 'f message) \<Rightarrow>
   ('f agent_state \<Rightarrow> py_error + 'f message list) \<Rightarrow> 'f message list \<Rightarrow>
   py_error + ('f message list list \<times> node option \<times> 'f agent_state)" where
  "graph_stream k llm_with_tools tn inputs =
     drive k llm_with_tools tn AssistantNode (apply_update \<lparr>messages = []\<rparr> inputs)"

section \<open>Observers and example conversations\<close>

text \<open>The identifier a tool-result message carries; other messages carry none.\<close>

fun tool_call_id :: "'f message \<Rightarrow> string option" where
  "tool_call_id (ToolResult cid v) = Some cid"
| "tool_call_id (Human content) = None"
| "tool_call_id (Assistant content tcs) = None"

text \<open>
  A model client that answers every conversation with a request to call \<open>add\<close> on
  1 and 2, and never with a final answer.
\<close>

definition add_request :: "'f tool_call" where
  "add_request =
     \<lparr>tc_id = ''call_1'', tc_name = ''add'', tc_args = [(''a'', IntV 1), (''b'', IntV 2)]\<rparr>"

definition always_requests :: "'f message list \<Rightarrow> py_error + 'f message" where
  "always_requests ms = Inr (Assistant None (Some [add_request]))"

text \<open>
  The conversation of the source's entry point, with a model client that first requests
  two tool calls and then gives a final answer. Floats are exact rationals here.
\<close>

definition demo_inputs :: "rat message list" where
  "demo_inputs =
     [Human ''What is the result of multiplying 12 by 5, and then adding 15 to that?'']"

definition multiply_request :: "rat tool_call" where
  "multiply_request =
     \<lparr>tc_id = ''call_m'', tc_name = ''multiply'', tc_args = [(''a'', IntV 12), (''b'', IntV 5)]\<rparr>"

definition divide_request :: "rat tool_call" where
  "divide_request =
     \<lparr>tc_id = ''call_d'', tc_name = ''divide'', tc_args = [(''a'', IntV 7), (''b'', IntV 2)]\<rparr>"

definition scripted_llm :: "rat message list \<Rightarrow> py_error + rat message" where
  "scripted_llm ms =
     (if length ms = 1 then Inr (Assistant None (Some [multiply_request, divide_request]))
      else Inr (Assistant (Some ''done'') (Some [])))"

definition failing_llm :: "rat message list \<Rightarrow> py_error + rat message" where
  "failing_llm ms = Inl TransportError"

definition demo_results :: "rat message list" where
  "demo_results = [ToolResult ''call_m'' (IntV 17), ToolResult ''call_d'' (FloatV (7 / 2))]"

definition demo_updates :: "rat message list list" where
  "demo_updates =
     [[Assistant None (Some [multiply_request, divide_request])],
      demo_results,
      [Assistant (Some ''done'') (Some [])]]"

definition demo_pending :: "rat agent_state" where
  "demo_pending =
     \<lparr>messages = demo_inputs @ [Assistant None (Some [multiply_request, divide_request])]\<rparr>"

definition demo_final :: "rat agent_state" where
  "demo_final =
     \<lparr>messages = demo_inputs @
        [Assistant None (Some [multiply_request, divide_request]),
         ToolResult ''call_m'' (IntV 17), ToolResult ''call_d'' (FloatV (7 / 2)),
         Assistant (Some ''done'') (Some [])]\<rparr>"

section \<open>Properties of the tool set\<close>

text \<open>
  C4: for all integers \<open>a\<close> and \<open>b\<close>, the tool registered as \<open>add\<close> returns
  \<open>a + b\<close>.
\<close>

theorem add_returns_sum: "add a b = a + b"
  by (simp add: add_def)

text \<open>
  C2: the claim is that the tool registered as \<open>multiply\<close> returns \<open>a * b\<close>. The
  source's body is \<^verbatim>\<open>return a + b\<close>: on 12 and 5 it returns 17, and the product
  is 60.
\<close>

theorem multiply_12_5_is_17: "multiply 12 5 = 17 \<and> multiply 12 5 \<noteq> 12 * 5"
  by (simp add: multiply_def)

text \<open>
  C3: for all integers \<open>a\<close> and \<open>b\<close> with \<open>b\<close> not zero, \<open>divide\<close> returns
  the quotient \<open>a / b\<close>, as the float the language makes of the exact quotient; and
  for every \<open>a\<close>, \<open>divide a 0\<close> fails with \<open>ZeroDivisionError\<close> and returns no
  value.
\<close>

theorem divide_quotient_or_zero_division:
  "(b \<noteq> 0 \<longrightarrow> divide_tool to_float a b = to_float (of_int a / of_int b)) \<and>
   divide_tool to_float a 0 = Inl ZeroDivisionError \<and>
   (\<forall>v. divide_tool to_float a 0 \<noteq> Inr v)"
  by (simp add: divide_tool_def)

theorem divide_quotient_or_zero_division_witness:
  "(2::int) \<noteq> 0 \<and>
   divide_tool (Inr :: rat \<Rightarrow> py_error + rat) 7 2 = Inr (7 / 2) \<and>
   divide_tool (Inr :: rat \<Rightarrow> py_error + rat) 7 0 = Inl ZeroDivisionError"
  using divide_quotient_or_zero_division [of 2 "Inr :: rat \<Rightarrow> py_error + rat" 7]
  by simp

section \<open>Properties of the router\<close>

text \<open>
  C1: for every state whose latest message is an assistant message, the router returns
  \<open>Tools\<close> when the message carries a non-empty list of tool-call requests, and
  \<open>END\<close> when the list is empty or absent. The text content of the message and the
  earlier messages are arbitrary.
\<close>

theorem tools_condition_routes_on_tool_calls:
  assumes "messages s = ms @ [Assistant content tcs]"
  shows "(\<forall>c cs. tcs = Some (c # cs) \<longrightarrow> tools_condition s = Inr Tools) \<and>
         (tcs = Some [] \<or> tcs = None \<longrightarrow> tools_condition s = Inr END)"
  using assms by (auto simp: tools_condition_def last_message_def)

theorem tools_condition_routes_on_tool_calls_witness:
  "tools_condition demo_pending = Inr Tools \<and>
   tools_condition demo_final = Inr END \<and>
   tools_condition \<lparr>messages = [Assistant (Some ''hello'') (None :: rat tool_call list option)]\<rparr>
     = Inr END"
proof -
  have pending: "messages demo_pending =
      demo_inputs @ [Assistant None (Some [multiply_request, divide_request])]"
    by (simp add: demo_pending_def)
  have final: "messages demo_final =
      (demo_inputs @ [Assistant None (Some [multiply_request, divide_request]),
         ToolResult ''call_m'' (IntV 17), ToolResult ''call_d'' (FloatV (7 / 2))])
      @ [Assistant (Some ''done'') (Some [])]"
    by (simp add: demo_final_def)
  have absent: "messages \<lparr>messages = [Assistant (Some ''hello'') (None :: rat tool_call list option)]\<rparr>
      = [] @ [Assistant (Some ''hello'') None]"
    by simp
  show ?thesis
    using tools_condition_routes_on_tool_calls [OF pending]
      tools_condition_routes_on_tool_calls [OF final]
      tools_condition_routes_on_tool_calls [OF absent]
    by simp
qed

text \<open>
  C9: the router depends on the latest message only. Two states whose latest messages
  are equal get the same outcome, whatever their earlier messages are.
\<close>

theorem tools_condition_latest_message_only:
  assumes "messages s1 = ms1 @ [m]" and "messages s2 = ms2 @ [m]"
  shows "tools_condition s1 = tools_condition s2"
  using assms by (simp add: tools_condition_def last_message_def)

theorem tools_condition_latest_message_only_witness:
  "tools_condition demo_pending =
   tools_condition \<lparr>messages = [Assistant None (Some [multiply_request, divide_request])]\<rparr>"
proof -
  have a: "messages demo_pending =
      demo_inputs @ [Assistant None (Some [multiply_request, divide_request])]"
    by (simp add: demo_pending_def)
  have b: "messages \<lparr>messages = [Assistant None (Some [multiply_request, divide_request])]\<rparr>
      = [] @ [Assistant None (Some [multiply_request, divide_request])]"
    by simp
  show ?thesis
    using tools_condition_latest_message_only [OF a b] .
qed

text \<open>
  C10: on a state whose message sequence is empty the router's read of the latest
  message fails with \<open>IndexError\<close>, and no route is returned.
\<close>

theorem tools_condition_empty_state_fails:
  assumes "messages s = []"
  shows "tools_condition s = Inl IndexError \<and> (\<forall>r. tools_condition s \<noteq> Inr r)"
  using assms by (simp add: tools_condition_def last_message_def)

theorem tools_condition_empty_state_fails_witness:
  "tools_condition \<lparr>messages = ([] :: rat message list)\<rparr> = Inl IndexError"
proof -
  have "messages \<lparr>messages = ([] :: rat message list)\<rparr> = []"
    by simp
  from tools_condition_empty_state_fails [OF this] show ?thesis
    by simp
qed

section \<open>Properties of the assistant step\<close>

text \<open>
  C7: the assistant step contributes exactly one message, the model client's response,
  and merging it appends that message and changes nothing else of the state. When the
  model client fails, the step fails with the same error.
\<close>

theorem assistant_node_one_message:
  "(\<forall>r. llm (messages s) = Inr r \<longrightarrow>
        assistant_node llm s = Inr [r] \<and>
        apply_update s [r] = s\<lparr>messages := messages s @ [r]\<rparr>) \<and>
   (\<forall>e. llm (messages s) = Inl e \<longrightarrow> assistant_node llm s = Inl e)"
  by (simp add: assistant_node_def apply_update_def reducer_def)

theorem assistant_node_one_message_witness:
  "assistant_node scripted_llm \<lparr>messages = demo_inputs\<rparr> =
     Inr [Assistant None (Some [multiply_request, divide_request])] \<and>
   apply_update \<lparr>messages = demo_inputs\<rparr> [Assistant None (Some [multiply_request, divide_request])]
     = demo_pending \<and>
   assistant_node failing_llm \<lparr>messages = demo_inputs\<rparr> = Inl TransportError"
proof -
  have ok: "scripted_llm (messages \<lparr>messages = demo_inputs\<rparr>) =
      Inr (Assistant None (Some [multiply_request, divide_request]))"
    by (simp add: scripted_llm_def demo_inputs_def)
  have bad: "failing_llm (messages \<lparr>messages = demo_inputs\<rparr>) = Inl TransportError"
    by (simp add: failing_llm_def)
  show ?thesis
    using assistant_node_one_message [of scripted_llm "\<lparr>messages = demo_inputs\<rparr>"]
      assistant_node_one_message [of failing_llm "\<lparr>messages = demo_inputs\<rparr>"]
      ok bad
    by (simp add: demo_pending_def)
qed

section \<open>Properties of the driver loop\<close>

text \<open>
  One node execution returns the update its node function returned, and the new state is
  the old one with that update appended to the messages.
\<close>

lemma step_appends:
  "step llm tn n s = Inr (upd, nxt, s') \<Longrightarrow> s' = s\<lparr>messages := messages s @ upd\<rparr>"
  by (auto simp: step_def apply_update_def reducer_def split: node.splits sum.splits route.splits)

lemma step_update:
  "step llm tn n s = Inr (upd, nxt, s') \<Longrightarrow>
     (case n of AssistantNode \<Rightarrow> assistant_node llm s | ToolsNode \<Rightarrow> tn s) = Inr upd"
  by (auto simp: step_def split: node.splits sum.splits route.splits)

lemma step_tools:
  "step llm tn ToolsNode s =
     (case tn s of
        Inl e \<Rightarrow> Inl e
      | Inr upd \<Rightarrow> Inr (upd, Some AssistantNode, apply_update s upd))"
  by (simp add: step_def)

lemma drive_appends:
  "drive k llm tn n s = Inr (upds, nxt, s') \<Longrightarrow> s' = s\<lparr>messages := messages s @ concat upds\<rparr>"
proof (induction k arbitrary: n s upds)
  case 0
  then show ?case by simp
next
  case (Suc k)
  from Suc.prems obtain upd nx s1 where st: "step llm tn n s = Inr (upd, nx, s1)"
    by (auto split: sum.splits)
  have s1: "s1 = s\<lparr>messages := messages s @ upd\<rparr>"
    using st by (rule step_appends)
  show ?case
  proof (cases nx)
    case None
    with Suc.prems st s1 show ?thesis by auto
  next
    case (Some n')
    with Suc.prems st obtain rest where
      dr: "drive k llm tn n' s1 = Inr (rest, nxt, s')" and upds: "upds = upd # rest"
      by (auto split: sum.splits)
    from Suc.IH [OF dr] s1 upds show ?thesis by simp
  qed
qed

lemma drive_length: "drive k llm tn n s = Inr (upds, nxt, s') \<Longrightarrow> length upds \<le> k"
proof (induction k arbitrary: n s upds)
  case 0
  then show ?case by simp
next
  case (Suc k)
  from Suc.prems obtain upd nx s1 where st: "step llm tn n s = Inr (upd, nx, s1)"
    by (auto split: sum.splits)
  show ?case
  proof (cases nx)
    case None
    with Suc.prems st show ?thesis by auto
  next
    case (Some n')
    with Suc.prems st obtain rest where
      dr: "drive k llm tn n' s1 = Inr (rest, nxt, s')" and upds: "upds = upd # rest"
      by (auto split: sum.splits)
    from Suc.IH [OF dr] upds show ?thesis by simp
  qed
qed

text \<open>
  C5: the conversation state grows only by appending. After any number of executed steps
  of the driver loop, assistant steps and tool-execution steps alike, the state is the
  starting state with the updates of the executed steps concatenated, in order, at the
  end of its messages: the earlier messages are still there, in place, and the message
  count is the starting count plus the sum of the lengths of the updates.
\<close>

theorem drive_appends_only:
  assumes "drive k llm tn n s = Inr (upds, nxt, s')"
  shows "s' = s\<lparr>messages := messages s @ concat upds\<rparr> \<and>
         length (messages s') = length (messages s) + sum_list (map length upds) \<and>
         take (length (messages s)) (messages s') = messages s \<and>
         length upds \<le> k"
proof -
  have eq: "s' = s\<lparr>messages := messages s @ concat upds\<rparr>"
    using assms by (rule drive_appends)
  have m: "messages s' = messages s @ concat upds"
    by (subst eq) simp
  have len: "length (messages s') = length (messages s) + sum_list (map length upds)"
    by (simp add: m length_concat)
  have pre: "take (length (messages s)) (messages s') = messages s"
    by (simp add: m)
  from eq len pre drive_length [OF assms] show ?thesis
    by blast
qed

theorem drive_appends_only_witness:
  "drive 5 scripted_llm (tool_node Inr) AssistantNode \<lparr>messages = demo_inputs\<rparr> =
     Inr (demo_updates, None, demo_final) \<and>
   demo_final = \<lparr>messages = demo_inputs @ concat demo_updates\<rparr> \<and>
   length (messages demo_final) = 1 + (1 + 2 + 1)"
proof -
  have run: "drive 5 scripted_llm (tool_node Inr) AssistantNode \<lparr>messages = demo_inputs\<rparr> =
      Inr (demo_updates, None, demo_final)"
    by code_simp
  have count: "length (messages \<lparr>messages = demo_inputs\<rparr>) + sum_list (map length demo_updates)
      = 1 + (1 + 2 + 1)"
    by (simp add: demo_inputs_def demo_updates_def demo_results_def)
  from drive_appends_only [OF run] run count show ?thesis
    by simp
qed

section \<open>Properties of the tool-execution step\<close>

lemma execute_calls_Cons_Inr:
  "execute_calls tf (c # cs) = Inr out \<longleftrightarrow>
     (\<exists>m ms. execute_call tf c = Inr m \<and> execute_calls tf cs = Inr ms \<and> out = m # ms)"
  by (cases "execute_call tf c"; cases "execute_calls tf cs") auto

lemma execute_call_Inr:
  "execute_call tf c = Inr m \<Longrightarrow> \<exists>v. m = ToolResult (tc_id c) v"
  by (auto simp: execute_call_def split: option.splits sum.splits)

lemma execute_calls_ids:
  "execute_calls tf cs = Inr out \<Longrightarrow> map tool_call_id out = map (\<lambda>c. Some (tc_id c)) cs"
proof (induction cs arbitrary: out)
  case Nil
  then show ?case by simp
next
  case (Cons c cs)
  from Cons.prems obtain m ms where
    m: "execute_call tf c = Inr m" and ms: "execute_calls tf cs = Inr ms" and out: "out = m # ms"
    unfolding execute_calls_Cons_Inr by blast
  from m obtain v where "m = ToolResult (tc_id c) v"
    by (auto dest: execute_call_Inr)
  with Cons.IH [OF ms] out show ?case by simp
qed

lemma execute_calls_succeeds:
  "(\<And>c. c \<in> set cs \<Longrightarrow> \<exists>m. execute_call tf c = Inr m) \<Longrightarrow> \<exists>out. execute_calls tf cs = Inr out"
proof (induction cs)
  case Nil
  show ?case by simp
next
  case (Cons c cs)
  from Cons.prems obtain m where m: "execute_call tf c = Inr m" by auto
  from Cons obtain ms where "execute_calls tf cs = Inr ms" by auto
  with m show ?case by simp
qed

lemma tool_node_snoc:
  "messages s = ms @ [Assistant content tcs] \<Longrightarrow>
   tool_node tf s = execute_calls tf (case tcs of None \<Rightarrow> [] | Some cs \<Rightarrow> cs)"
  by (simp add: tool_node_def last_message_def)

text \<open>
  C6: when the tool-execution step consumes an assistant message and returns, its update
  holds exactly one tool-result message per request of that message, in the order of
  the requests, each carrying the identifier of its request; the next node is the
  assistant, and the state it runs on has all those results after the assistant
  message. The step does return when every request names a registered tool and its
  call succeeds.
\<close>

theorem tool_node_one_result_per_request:
  assumes "messages s = ms @ [Assistant content tcs]"
  shows "(\<forall>out nxt s'. step llm (tool_node tf) ToolsNode s = Inr (out, nxt, s') \<longrightarrow>
            map tool_call_id out =
              map (\<lambda>c. Some (tc_id c)) (case tcs of None \<Rightarrow> [] | Some cs \<Rightarrow> cs) \<and>
            length out = length (case tcs of None \<Rightarrow> [] | Some cs \<Rightarrow> cs) \<and>
            nxt = Some AssistantNode \<and>
            messages s' = ms @ Assistant content tcs # out) \<and>
         ((\<forall>c \<in> set (case tcs of None \<Rightarrow> [] | Some cs \<Rightarrow> cs). \<exists>m. execute_call tf c = Inr m) \<longrightarrow>
            (\<exists>out s'. step llm (tool_node tf) ToolsNode s = Inr (out, Some AssistantNode, s')))"
proof (intro conjI allI impI)
  fix out nxt s'
  assume st: "step llm (tool_node tf) ToolsNode s = Inr (out, nxt, s')"
  let ?cs = "case tcs of None \<Rightarrow> [] | Some cs \<Rightarrow> cs"
  from st have ex: "execute_calls tf ?cs = Inr out" and nxt: "nxt = Some AssistantNode"
    and s': "s' = apply_update s out"
    by (auto simp: step_tools tool_node_snoc [OF assms] split: sum.splits)
  from ex show ids: "map tool_call_id out = map (\<lambda>c. Some (tc_id c)) ?cs"
    by (rule execute_calls_ids)
  from ids show "length out = length ?cs"
    by (rule map_eq_imp_length_eq)
  from nxt show "nxt = Some AssistantNode" .
  from s' assms show "messages s' = ms @ Assistant content tcs # out"
    by (simp add: apply_update_def reducer_def)
next
  let ?cs = "case tcs of None \<Rightarrow> [] | Some cs \<Rightarrow> cs"
  assume "\<forall>c \<in> set ?cs. \<exists>m. execute_call tf c = Inr m"
  then obtain out where "execute_calls tf ?cs = Inr out"
    using execute_calls_succeeds [of ?cs tf] by blast
  then show "\<exists>out s'. step llm (tool_node tf) ToolsNode s = Inr (out, Some AssistantNode, s')"
    by (simp add: step_tools tool_node_snoc [OF assms])
qed

theorem tool_node_one_result_per_request_witness:
  "execute_call Inr multiply_request = Inr (ToolResult ''call_m'' (IntV 17)) \<and>
   execute_call Inr divide_request = Inr (ToolResult ''call_d'' (FloatV (7 / 2))) \<and>
   step scripted_llm (tool_node Inr) ToolsNode demo_pending =
     Inr (demo_results, Some AssistantNode, apply_update demo_pending demo_results) \<and>
   map tool_call_id demo_results = [Some ''call_m'', Some ''call_d''] \<and>
   messages (apply_update demo_pending demo_results) =
     demo_inputs @ Assistant None (Some [multiply_request, divide_request]) # demo_results"
proof -
  have pending: "messages demo_pending =
      demo_inputs @ [Assistant None (Some [multiply_request, divide_request])]"
    by (simp add: demo_pending_def)
  have m: "execute_call Inr multiply_request = Inr (ToolResult ''call_m'' (IntV 17))"
    by code_simp
  have d: "execute_call Inr divide_request = Inr (ToolResult ''call_d'' (FloatV (7 / 2)))"
    by code_simp
  have st: "step scripted_llm (tool_node Inr) ToolsNode demo_pending =
      Inr (demo_results, Some AssistantNode, apply_update demo_pending demo_results)"
    by code_simp
  from tool_node_one_result_per_request [OF pending, of scripted_llm Inr] m d st show ?thesis
    by (simp add: multiply_request_def divide_request_def)
qed

section \<open>A run that never ends\<close>

lemma execute_add_request:
  "execute_call tf add_request = Inr (ToolResult ''call_1'' (IntV 3))"
  by (simp add: execute_call_def add_request_def tools_def invoke_tool_def int_arg_def add_def)

lemma step_assistant_always:
  "step always_requests tn AssistantNode s =
     Inr ([Assistant None (Some [add_request])], Some ToolsNode,
          apply_update s [Assistant None (Some [add_request])])"
  by (simp add: step_def assistant_node_def always_requests_def tools_condition_def
      last_message_def apply_update_def reducer_def)

lemma step_tools_always:
  "messages s = ms @ [Assistant None (Some [add_request])] \<Longrightarrow>
   step llm (tool_node tf) ToolsNode s =
     Inr ([ToolResult ''call_1'' (IntV 3)], Some AssistantNode,
          apply_update s [ToolResult ''call_1'' (IntV 3)])"
  by (simp add: step_tools tool_node_snoc execute_add_request)

lemma loop_keeps_running:
  "(\<forall>s :: ('f, 'x) agent_state_scheme.
      \<exists>upds n s'. drive k always_requests (tool_node tf) AssistantNode s = Inr (upds, Some n, s')) \<and>
   (\<forall>(s :: ('f, 'x) agent_state_scheme) ms.
      messages s = ms @ [Assistant None (Some [add_request])] \<longrightarrow>
      (\<exists>upds n s'. drive k always_requests (tool_node tf) ToolsNode s = Inr (upds, Some n, s')))"
proof (induction k)
  case 0
  show ?case by simp
next
  case (Suc k)
  show ?case
  proof (intro conjI allI impI)
    fix s :: "('f, 'x) agent_state_scheme"
    let ?s1 = "apply_update s [Assistant None (Some [add_request])]"
    have "messages ?s1 = messages s @ [Assistant None (Some [add_request])]"
      by (simp add: apply_update_def reducer_def)
    with Suc.IH obtain upds n s' where
      "drive k always_requests (tool_node tf) ToolsNode ?s1 = Inr (upds, Some n, s')"
      by blast
    then show "\<exists>upds n s'.
        drive (Suc k) always_requests (tool_node tf) AssistantNode s = Inr (upds, Some n, s')"
      by (simp add: step_assistant_always)
  next
    fix s :: "('f, 'x) agent_state_scheme" and ms
    assume last: "messages s = ms @ [Assistant None (Some [add_request])]"
    let ?s1 = "apply_update s [ToolResult ''call_1'' (IntV 3)]"
    from Suc.IH obtain upds n s' where
      "drive k always_requests (tool_node tf) AssistantNode ?s1 = Inr (upds, Some n, s')"
      by blast
    then show "\<exists>upds n s'.
        drive (Suc k) always_requests (tool_node tf) ToolsNode s = Inr (upds, Some n, s')"
      by (simp add: step_tools_always [OF last])
  qed
qed

text \<open>
  C8: the loop has no bound on its iterations. There is a model client, every response
  of which carries a non-empty list of tool-call requests, under which the run from any
  input is still running after any number of node executions: it has neither reached
  \<open>END\<close> nor failed, and a next node is waiting.
\<close>

theorem driver_loop_can_run_forever:
  "\<exists>llm. (\<forall>ms. \<exists>content tcs. llm ms = Inr (Assistant content (Some tcs)) \<and> tcs \<noteq> []) \<and>
     (\<forall>inputs k. \<exists>upds n s'.
        graph_stream k llm (tool_node (tf :: rat \<Rightarrow> py_error + 'f)) inputs = Inr (upds, Some n, s'))"
proof (rule exI [of _ always_requests], intro conjI allI)
  fix ms :: "'f message list"
  show "\<exists>content tcs. always_requests ms = Inr (Assistant content (Some tcs)) \<and> tcs \<noteq> []"
    by (simp add: always_requests_def)
next
  fix inputs :: "'f message list" and k
  show "\<exists>upds n s'. graph_stream k always_requests (tool_node tf) inputs = Inr (upds, Some n, s')"
    unfolding graph_stream_def using loop_keeps_running [of k tf] by blast
qed

end
